theory Spec2Isabelle
  imports Main
begin

section \<open>The MediaWiki pages table (mediawiki\_tables.py)\<close>

text \<open>
  A shallow embedding of \<^verbatim>\<open>PagesTable\<close>: the table adapter that turns a parsed
  SELECT into search, page and random calls on a wiki connection, and a parsed INSERT
  into one edit call on the handler. Exceptions are values of \<open>error + 'a\<close>; every
  call on the handler or its connection, and every debug line written to the logger, is
  recorded in order in a list of events that each operation returns beside its result.
\<close>

subsection \<open>Python values and exceptions\<close>

text \<open>
  The constants the query parsers hand over for SQL literals: \<^verbatim>\<open>None\<close>, integers
  and strings. (Float and boolean literals are left out.)
\<close>

datatype pyconst = PyNone | PyInt int | PyStr string

text \<open>
  The exceptions that occur: the \<^verbatim>\<open>ValueError\<close> of the validation with its
  message, the \<^verbatim>\<open>KeyError\<close> of a missing dictionary key (also out of an
  attribute read that looks a key up), the \<^verbatim>\<open>AttributeError\<close> of reading an
  attribute an object does not have, and any other exception of a collaborator.
\<close>

datatype error =
    ValueError string
  | KeyError string
  | AttributeError string
  | OtherError string

subsection \<open>String formatting\<close>

definition digit_char :: "nat \<Rightarrow> char" where
  "digit_char d = ''0123456789'' ! d"

function str_nat :: "nat \<Rightarrow> string" where
  "str_nat n = (if n < 10 then [digit_char n] else str_nat (n div 10) @ [digit_char (n mod 10)])"
  by pat_completeness auto
termination
  by (relation "measure (\<lambda>n. n)") auto

declare str_nat.simps [simp del]

definition str_int :: "int \<Rightarrow> string" where
  "str_int i = (if i < 0 then ''-'' @ str_nat (nat (- i)) else str_nat (nat i))"

text \<open>\<^verbatim>\<open>str(v)\<close>, which is what an f-string field \<^verbatim>\<open>{v}\<close> expands to.\<close>

fun py_str :: "pyconst \<Rightarrow> string" where
  "py_str PyNone = ''None''"
| "py_str (PyInt i) = str_int i"
| "py_str (PyStr s) = s"

text \<open>\<^verbatim>\<open>sep.join(parts)\<close>.\<close>

fun join :: "string \<Rightarrow> string list \<Rightarrow> string" where
  "join sep [] = []"
| "join sep [x] = x"
| "join sep (x # y # ys) = x @ sep @ join sep (y # ys)"

subsection \<open>The table's columns\<close>

definition get_columns :: "string list" where
  "get_columns =
     [''pageid'', ''title'', ''original_title'', ''content'', ''summary'', ''url'', ''categories'']"

subsection \<open>Validation of the WHERE conditions\<close>

text \<open>
  A condition is the triple \<^verbatim>\<open>[operator, column, value]\<close> of the parser. The loop
  of \<^verbatim>\<open>validate_where_conditions\<close> carries \<^verbatim>\<open>title\<close> and \<^verbatim>\<open>page_id\<close>,
  both \<^verbatim>\<open>None\<close> at the start, and raises at the first condition it does not support.
\<close>

type_synonym condition = "string \<times> string \<times> pyconst"

definition unsupported_operator :: "string \<Rightarrow> string \<Rightarrow> string" where
  "unsupported_operator oper col =
     ''Unsupported operator '' @ [CHR 0x27] @ oper @ [CHR 0x27] @ '' for column '' @
     [CHR 0x27] @ col @ [CHR 0x27] @ '' in WHERE clause.''"

definition unsupported_column :: "string \<Rightarrow> string" where
  "unsupported_column col =
     ''Unsupported column '' @ [CHR 0x27] @ col @ [CHR 0x27] @ '' in WHERE clause.''"

fun validate_loop :: "condition list \<Rightarrow> pyconst \<Rightarrow> pyconst \<Rightarrow> error + (pyconst \<times> pyconst)" where
  "validate_loop [] title page_id = Inr (title, page_id)"
| "validate_loop ((oper, col, val) # conditions) title page_id =
     (if col = ''title'' then
        (if oper \<noteq> ''='' then Inl (ValueError (unsupported_operator oper col))
         else validate_loop conditions val page_id)
      else if col = ''pageid'' then
        (if oper \<noteq> ''='' then Inl (ValueError (unsupported_operator oper col))
         else validate_loop conditions title val)
      else Inl (ValueError (unsupported_column col)))"

definition validate_where_conditions :: "condition list \<Rightarrow> error + (pyconst \<times> pyconst)" where
  "validate_where_conditions conditions = validate_loop conditions PyNone PyNone"

subsection \<open>The handler, its connection and the events\<close>

text \<open>
  A page object is what \<^verbatim>\<open>getattr(page, attribute)\<close> does on it: for each attribute
  name either a value or the exception the read raises. An object that has no such
  attribute raises \<^verbatim>\<open>AttributeError\<close>; a lazily loaded attribute whose field is
  missing from the wiki's answer raises \<^verbatim>\<open>KeyError\<close>.
\<close>

type_synonym 'v page = "string \<Rightarrow> error + 'v"

type_synonym 'v row = "string \<rightharpoonup> 'v"

text \<open>
  The connection that \<^verbatim>\<open>handler.connect()\<close> returns: \<^verbatim>\<open>search(term, results=n)\<close>
  and \<^verbatim>\<open>random(pages=n)\<close> return the items the loop iterates over,
  \<^verbatim>\<open>page(item, auto_suggest=b)\<close> returns a page object; each may raise. What a
  call answers is taken to depend on its arguments only.
\<close>

record ('r, 'v) connection =
  conn_search :: "string \<Rightarrow> pyconst \<Rightarrow> error + 'r list"
  conn_page :: "'r \<Rightarrow> bool \<Rightarrow> error + 'v page"
  conn_random :: "pyconst \<Rightarrow> error + 'r list"

record ('r, 'v) handler =
  h_connect :: "error + ('r, 'v) connection"
  h_call_application_api :: "string \<Rightarrow> (string \<rightharpoonup> pyconst) \<Rightarrow> error + unit"

datatype 'r event =
    Connect
  | Search string pyconst
  | Page 'r bool
  | Random pyconst
  | CallApplicationApi string "string \<rightharpoonup> pyconst"
  | LogDebug string

subsection \<open>From a page to a row\<close>

definition skipping :: "string \<Rightarrow> string" where
  "skipping attribute =
     ''Error accessing '' @ [CHR 0x27] @ attribute @ [CHR 0x27] @ '' attribute. Skipping...''"

text \<open>
  The loop of \<^verbatim>\<open>convert_page_to_dict\<close> over the attributes: a value is stored
  under its attribute, a \<^verbatim>\<open>KeyError\<close> is caught and logged, any other exception
  leaves the function.
\<close>

fun convert_loop ::
  "'v page \<Rightarrow> string list \<Rightarrow> 'v row \<Rightarrow> string list \<Rightarrow> (error + 'v row) \<times> string list" where
  "convert_loop page [] result logged = (Inr result, logged)"
| "convert_loop page (attribute # attributes) result logged =
     (case page attribute of
        Inr v \<Rightarrow> convert_loop page attributes (result(attribute \<mapsto> v)) logged
      | Inl (KeyError k) \<Rightarrow>
          convert_loop page attributes result (logged @ [skipping attribute])
      | Inl e \<Rightarrow> (Inl e, logged))"

text \<open>The second component is the list of lines given to \<^verbatim>\<open>logger.debug\<close>.\<close>

definition convert_page_to_dict :: "'v page \<Rightarrow> (error + 'v row) \<times> string list" where
  "convert_page_to_dict page = convert_loop page get_columns Map.empty []"

subsection \<open>Fetching the pages\<close>

text \<open>
  The list comprehension of \<^verbatim>\<open>get_pages\<close>: for each item, one
  \<^verbatim>\<open>connection.page(item, auto_suggest=False)\<close> and the conversion of its page.
\<close>

fun fetch_rows ::
  "('r, 'v) connection \<Rightarrow> 'r list \<Rightarrow> (error + 'v row list) \<times> 'r event list" where
  "fetch_rows connection [] = (Inr [], [])"
| "fetch_rows connection (result # results) =
     (case conn_page connection result False of
        Inl e \<Rightarrow> (Inl e, [Page result False])
      | Inr page \<Rightarrow>
          (case convert_page_to_dict page of
             (Inl e, logged) \<Rightarrow> (Inl e, Page result False # map LogDebug logged)
           | (Inr d, logged) \<Rightarrow>
               (case fetch_rows connection results of
                  (Inl e, evs) \<Rightarrow> (Inl e, Page result False # map LogDebug logged @ evs)
                | (Inr ds, evs) \<Rightarrow>
                    (Inr (d # ds), Page result False # map LogDebug logged @ evs))))"

text \<open>The search term of \<^verbatim>\<open>get_pages\<close> (its \<^verbatim>\<open>search_query\<close>).\<close>

definition search_query :: "pyconst \<Rightarrow> pyconst \<Rightarrow> string" where
  "search_query title page_id =
     (let query_parts = [];
          query_parts = (if title \<noteq> PyNone then query_parts @ [''intitle:'' @ py_str title]
                         else query_parts);
          query_parts = (if page_id \<noteq> PyNone then query_parts @ [''pageid:'' @ py_str page_id]
                         else query_parts)
      in join '' | '' query_parts)"

text \<open>
  \<^verbatim>\<open>get_pages(title=None, page_id=None, limit=20)\<close>. The limit is an option:
  \<open>None\<close> is a call that leaves the argument out, so that the default applies. For
  the title and the page id, leaving the argument out is passing \<^verbatim>\<open>None\<close>.
\<close>

definition default_limit :: pyconst where
  "default_limit = PyInt 20"

definition get_pages ::
  "('r, 'v) handler \<Rightarrow> pyconst \<Rightarrow> pyconst \<Rightarrow> pyconst option \<Rightarrow>
     (error + 'v row list) \<times> 'r event list" where
  "get_pages h title page_id limit_arg =
     (let limit = (case limit_arg of None \<Rightarrow> default_limit | Some l \<Rightarrow> l);
          search_term = search_query title page_id
      in case h_connect h of
           Inl e \<Rightarrow> (Inl e, [Connect])
         | Inr connection \<Rightarrow>
             (if search_term \<noteq> [] then
                (case conn_search connection search_term limit of
                   Inl e \<Rightarrow> (Inl e, [Connect, Search search_term limit])
                 | Inr results \<Rightarrow>
                     (case fetch_rows connection results of
                        (r, evs) \<Rightarrow> (r, Connect # Search search_term limit # evs)))
              else
                (case conn_random connection limit of
                   Inl e \<Rightarrow> (Inl e, [Connect, Random limit])
                 | Inr results \<Rightarrow>
                     (case fetch_rows connection results of
                        (r, evs) \<Rightarrow> (r, Connect # Random limit # evs)))))"

subsection \<open>The collaborators outside this module\<close>

text \<open>
  The query utilities and pandas are not part of this module; they are parameters.
  \<^verbatim>\<open>SELECTQueryParser(query, table, columns).parse_query()\<close> returns the selected
  columns, the WHERE conditions, the ORDER BY conditions and the limit;
  \<^verbatim>\<open>pd.json_normalize\<close> makes a frame of the rows;
  \<^verbatim>\<open>SELECTQueryExecutor(frame, columns, conditions, order).execute_query()\<close>
  returns the final frame; \<^verbatim>\<open>INSERTQueryParser(query, columns).parse_query()\<close>
  returns one dictionary per row to insert. None of them talks to the wiki.
\<close>

record ('q, 'i, 'o, 'v, 'd) utilities =
  select_parse_query ::
    "'q \<Rightarrow> string \<Rightarrow> string list \<Rightarrow> error + (string list \<times> condition list \<times> 'o \<times> pyconst)"
  json_normalize :: "'v row list \<Rightarrow> error + 'd"
  select_execute_query :: "'d \<Rightarrow> string list \<Rightarrow> condition list \<Rightarrow> 'o \<Rightarrow> error + 'd"
  insert_parse_query :: "'i \<Rightarrow> string list \<Rightarrow> error + (string \<rightharpoonup> pyconst) list"

subsection \<open>SELECT\<close>

definition select ::
  "('q, 'i, 'o, 'v, 'd) utilities \<Rightarrow> ('r, 'v) handler \<Rightarrow> 'q \<Rightarrow> (error + 'd) \<times> 'r event list" where
  "select U h query =
     (case select_parse_query U query ''pages'' get_columns of
        Inl e \<Rightarrow> (Inl e, [])
      | Inr (selected_columns, where_conditions, order_by_conditions, result_limit) \<Rightarrow>
          (case validate_where_conditions where_conditions of
             Inl e \<Rightarrow> (Inl e, [])
           | Inr (title, page_id) \<Rightarrow>
               (case get_pages h title page_id (Some result_limit) of
                  (Inl e, evs) \<Rightarrow> (Inl e, evs)
                | (Inr rows, evs) \<Rightarrow>
                    (case json_normalize U rows of
                       Inl e \<Rightarrow> (Inl e, evs)
                     | Inr pages_df \<Rightarrow>
                         (select_execute_query U pages_df selected_columns []
                            order_by_conditions, evs)))))"

subsection \<open>INSERT\<close>

text \<open>
  \<^verbatim>\<open>json.dumps\<close> with its default separators, on the shape of value this module
  gives it: a list of dictionaries from strings to strings. Of the escapes of a JSON
  string only those of the quote and of the backslash are modelled; the texts written
  here are printable ASCII without either.
\<close>

definition json_string :: "string \<Rightarrow> string" where
  "json_string s =
     [CHR 0x22] @
     concat (map (\<lambda>c. if c = CHR 0x22 \<or> c = CHR 0x5C then [CHR 0x5C, c] else [c]) s) @
     [CHR 0x22]"

definition json_dict :: "(string \<times> string) list \<Rightarrow> string" where
  "json_dict d =
     ''{'' @ join '', '' (map (\<lambda>(k, v). json_string k @ '': '' @ json_string v) d) @ ''}''"

definition json_dumps :: "(string \<times> string) list list \<Rightarrow> string" where
  "json_dumps ds = ''['' @ join '', '' (map json_dict ds) @ '']''"

definition edit_headers :: "(string \<times> string) list list" where
  "edit_headers =
     [[(''Accept'', ''application/json'')],
      [(''Content-Type'', ''application/x-www-form-urlencoded'')]]"

text \<open>
  \<^verbatim>\<open>insert\<close>. The dictionary of the edit call is built entry by entry, so the
  first of \<^verbatim>\<open>row['title']\<close>, \<^verbatim>\<open>row['content']\<close>, \<^verbatim>\<open>row['summary']\<close>
  whose key is missing raises its \<^verbatim>\<open>KeyError\<close>.
\<close>

definition insert_query ::
  "('q, 'i, 'o, 'v, 'd) utilities \<Rightarrow> ('r, 'v) handler \<Rightarrow> 'i \<Rightarrow> (error + unit) \<times> 'r event list" where
  "insert_query U h query =
     (case insert_parse_query U query get_columns of
        Inl e \<Rightarrow> (Inl e, [])
      | Inr values_to_insert \<Rightarrow>
          (case values_to_insert of
             [] \<Rightarrow> (Inr (), [])
           | row # _ \<Rightarrow>
               (case row ''title'' of
                  None \<Rightarrow> (Inl (KeyError ''title''), [])
                | Some title \<Rightarrow>
                    (case row ''content'' of
                       None \<Rightarrow> (Inl (KeyError ''content''), [])
                     | Some content \<Rightarrow>
                         (case row ''summary'' of
                            None \<Rightarrow> (Inl (KeyError ''summary''), [])
                          | Some summary \<Rightarrow>
                              (let payload =
                                 [''title'' \<mapsto> title,
                                  ''text'' \<mapsto> content,
                                  ''summary'' \<mapsto> summary,
                                  ''headers'' \<mapsto> PyStr (json_dumps edit_headers)]
                               in (h_call_application_api h ''edit'' payload,
                                   [CallApplicationApi ''edit'' payload])))))))"

subsection \<open>Notions of the specification\<close>

text \<open>
  A condition the table supports: an equality on \<^verbatim>\<open>title\<close> or on
  \<^verbatim>\<open>pageid\<close>.
\<close>

definition supported :: "condition \<Rightarrow> bool" where
  "supported c =
     (case c of (oper, col, v) \<Rightarrow> (col = ''title'' \<or> col = ''pageid'') \<and> oper = ''='')"

text \<open>
  The message for a condition that is not supported: it names the operator and the
  column when the column is one of the two, and the column otherwise.
\<close>

definition rejection :: "string \<Rightarrow> string \<Rightarrow> string" where
  "rejection oper col =
     (if col = ''title'' \<or> col = ''pageid'' then unsupported_operator oper col
      else unsupported_column col)"

text \<open>
  The value of the last condition on a column, in list order; \<open>d\<close> when the list
  has no condition on that column.
\<close>

definition last_value :: "string \<Rightarrow> condition list \<Rightarrow> pyconst \<Rightarrow> pyconst" where
  "last_value col cs d =
     (case filter (\<lambda>(oper, c, v). c = col) cs of
        [] \<Rightarrow> d
      | f # fs \<Rightarrow> snd (snd (last (f # fs))))"

text \<open>
  An attribute read that the conversion survives: it returns a value or raises
  \<^verbatim>\<open>KeyError\<close>.
\<close>

definition readable :: "'v page \<Rightarrow> string \<Rightarrow> bool" where
  "readable page a = (case page a of Inr v \<Rightarrow> True | Inl (KeyError k) \<Rightarrow> True | Inl e \<Rightarrow> False)"

text \<open>The events that are calls of \<^verbatim>\<open>search\<close>, of \<^verbatim>\<open>random\<close>, of the edit.\<close>

fun is_search :: "'r event \<Rightarrow> bool" where
  "is_search (Search t n) = True"
| "is_search _ = False"

fun is_random :: "'r event \<Rightarrow> bool" where
  "is_random (Random n) = True"
| "is_random _ = False"

fun is_edit :: "'r event \<Rightarrow> bool" where
  "is_edit (CallApplicationApi a p) = True"
| "is_edit _ = False"

subsection \<open>A small wiki for concrete instances\<close>

text \<open>
  A page whose \<^verbatim>\<open>categories\<close> are missing from the wiki's answer, so that reading
  them raises \<^verbatim>\<open>KeyError\<close>, and a page object that has no attribute of that name.
\<close>

definition sample_page :: "string \<Rightarrow> pyconst page" where
  "sample_page t attribute =
     (if attribute = ''pageid'' then Inr (PyInt 1)
      else if attribute = ''title'' \<or> attribute = ''original_title'' then Inr (PyStr t)
      else if attribute = ''content'' \<or> attribute = ''summary'' \<or> attribute = ''url''
        then Inr (PyStr ''text'')
      else if attribute = ''categories'' then Inl (KeyError ''categories'')
      else Inl (AttributeError attribute))"

definition bare_page :: "pyconst page" where
  "bare_page attribute =
     (if attribute = ''categories'' then Inl (AttributeError ''categories'')
      else sample_page ''Bare'' attribute)"

definition sample_connection :: "(string, pyconst) connection" where
  "sample_connection =
     \<lparr>conn_search = (\<lambda>t n. Inr [''Alpha'', ''Beta'']),
      conn_page = (\<lambda>r b. Inr (sample_page r)),
      conn_random = (\<lambda>n. Inr [''Gamma''])\<rparr>"

definition sample_handler :: "(string, pyconst) handler" where
  "sample_handler =
     \<lparr>h_connect = Inr sample_connection,
      h_call_application_api = (\<lambda>a p. Inr ())\<rparr>"

text \<open>Utilities whose parsers hand the query over as it is and whose frame is the row list.\<close>

definition sample_utilities ::
  "(string list \<times> condition list \<times> unit \<times> pyconst, (string \<rightharpoonup> pyconst) list, unit,
    pyconst, pyconst row list) utilities" where
  "sample_utilities =
     \<lparr>select_parse_query = (\<lambda>q t cols. Inr q),
      json_normalize = Inr,
      select_execute_query = (\<lambda>d cols conds ob. Inr d),
      insert_parse_query = (\<lambda>q cols. Inr q)\<rparr>"

section \<open>Properties\<close>

subsection \<open>The loops\<close>

lemma last_value_Cons_same:
  "last_value col ((oper, col, v) # cs) d = last_value col cs v"
  by (simp add: last_value_def split: list.splits)

lemma last_value_Cons_other:
  "c \<noteq> col \<Longrightarrow> last_value col ((oper, c, v) # cs) d = last_value col cs d"
  by (simp add: last_value_def)

lemma validate_loop_supported:
  "\<forall>c\<in>set cs. supported c \<Longrightarrow>
   validate_loop cs t p = Inr (last_value ''title'' cs t, last_value ''pageid'' cs p)"
proof (induction cs arbitrary: t p)
  case Nil
  show ?case by (simp add: last_value_def)
next
  case (Cons c cs)
  obtain oper col v where c: "c = (oper, col, v)" by (cases c) auto
  from Cons.prems have sup: "(col = ''title'' \<or> col = ''pageid'') \<and> oper = ''=''"
    and rest: "\<forall>x\<in>set cs. supported x"
    by (simp_all add: c supported_def)
  show ?case
  proof (cases "col = ''title''")
    case True
    with sup rest show ?thesis
      by (simp add: c Cons.IH last_value_Cons_same last_value_Cons_other)
  next
    case False
    with sup have "col = ''pageid''" by simp
    with sup rest show ?thesis
      by (simp add: c Cons.IH last_value_Cons_same last_value_Cons_other)
  qed
qed

lemma validate_loop_rejects:
  "\<forall>c\<in>set pre. supported c \<Longrightarrow> \<not> supported (oper, col, v) \<Longrightarrow>
   validate_loop (pre @ (oper, col, v) # post) t p = Inl (ValueError (rejection oper col))"
proof (induction pre arbitrary: t p)
  case Nil
  then show ?case by (auto simp: supported_def rejection_def)
next
  case (Cons c pre)
  obtain o' c' v' where c: "c = (o', c', v')" by (cases c) auto
  from Cons.prems have "(c' = ''title'' \<or> c' = ''pageid'') \<and> o' = ''=''"
    by (simp add: c supported_def)
  with Cons show ?case by (auto simp: c)
qed

lemma first_unsupported:
  "\<exists>c\<in>set cs. \<not> supported c \<Longrightarrow>
   \<exists>pre oper col v post. cs = pre @ (oper, col, v) # post \<and> (\<forall>c\<in>set pre. supported c) \<and>
      \<not> supported (oper, col, v)"
proof -
  assume "\<exists>c\<in>set cs. \<not> supported c"
  then obtain pre c post where "cs = pre @ c # post" "\<not> supported c" "\<forall>y\<in>set pre. \<not> \<not> supported y"
    using split_list_first_prop [of cs "\<lambda>c. \<not> supported c"] by blast
  moreover obtain oper col v where "c = (oper, col, v)" by (cases c) auto
  ultimately show ?thesis by blast
qed

lemma convert_loop_keys:
  "convert_loop page attrs result logged = (Inr r, lg) \<Longrightarrow> dom r \<subseteq> dom result \<union> set attrs"
proof (induction attrs arbitrary: result logged)
  case Nil
  then show ?case by auto
next
  case (Cons a attrs)
  show ?case
  proof (cases "page a")
    case (Inr v)
    with Cons.prems have "convert_loop page attrs (result(a \<mapsto> v)) logged = (Inr r, lg)" by simp
    from Cons.IH [OF this] show ?thesis by auto
  next
    case (Inl e)
    with Cons.prems obtain k where "e = KeyError k"
      and "convert_loop page attrs result (logged @ [skipping a]) = (Inr r, lg)"
      by (cases e) auto
    from Cons.IH [OF this(2)] show ?thesis by auto
  qed
qed

lemma convert_loop_readable:
  "\<forall>a\<in>set attrs. readable page a \<Longrightarrow>
   convert_loop page attrs result logged =
     (Inr (\<lambda>a. if a \<in> set attrs then (case page a of Inr v \<Rightarrow> Some v | Inl e \<Rightarrow> result a)
                  else result a),
      logged @ map skipping (filter (\<lambda>a. isl (page a)) attrs))"
proof (induction attrs arbitrary: result logged)
  case Nil
  show ?case by simp
next
  case (Cons a attrs)
  from Cons.prems have rest: "\<forall>x\<in>set attrs. readable page x" and ra: "readable page a"
    by simp_all
  show ?case
  proof (cases "page a")
    case (Inr v)
    then show ?thesis
      by (simp add: Cons.IH [OF rest]) (rule ext, simp split: sum.splits)
  next
    case (Inl e)
    with ra obtain k where "e = KeyError k"
      by (cases e) (simp_all add: readable_def)
    with Inl show ?thesis
      by (simp add: Cons.IH [OF rest]) (rule ext, simp split: sum.splits)
  qed
qed

lemma convert_loop_raises:
  "\<forall>a\<in>set pre. readable page a \<Longrightarrow> page a = Inl e \<Longrightarrow> \<not> readable page a \<Longrightarrow>
   fst (convert_loop page (pre @ a # post) result logged) = Inl e"
proof (induction pre arbitrary: result logged)
  case Nil
  then show ?case by (cases e) (simp_all add: readable_def)
next
  case (Cons x pre)
  from Cons.prems have rx: "readable page x" by simp
  show ?case
  proof (cases "page x")
    case (Inr v)
    with Cons show ?thesis by simp
  next
    case (Inl e')
    with rx obtain k where "e' = KeyError k" by (cases e') (simp_all add: readable_def)
    with Inl Cons show ?thesis by simp
  qed
qed



lemma fetch_rows_rows:
  "fst (fetch_rows c rs) = Inr rows \<Longrightarrow>
   list_all2 (\<lambda>r d. \<exists>p. conn_page c r False = Inr p \<and> fst (convert_page_to_dict p) = Inr d)
     rs rows"
proof (induction rs arbitrary: rows)
  case Nil
  then show ?case by simp
next
  case (Cons r rs)
  from Cons.prems obtain p d lg ds evs where
    "conn_page c r False = Inr p" "convert_page_to_dict p = (Inr d, lg)"
    "fetch_rows c rs = (Inr ds, evs)" "rows = d # ds"
    by (auto split: sum.splits prod.splits)
  with Cons.IH [of ds] show ?case by simp
qed

lemma fetch_rows_succeeds:
  "\<forall>r\<in>set rs. \<exists>p d. conn_page c r False = Inr p \<and> fst (convert_page_to_dict p) = Inr d \<Longrightarrow>
   \<exists>rows. fst (fetch_rows c rs) = Inr rows"
proof (induction rs)
  case Nil
  show ?case by simp
next
  case (Cons r rs)
  from Cons.prems obtain p d where "conn_page c r False = Inr p" "fst (convert_page_to_dict p) = Inr d"
    by auto
  moreover from Cons obtain ds where "fst (fetch_rows c rs) = Inr ds" by auto
  ultimately show ?case
    by (cases "convert_page_to_dict p"; cases "fetch_rows c rs") simp
qed

lemma fetch_rows_events:
  "e \<in> set (snd (fetch_rows c rs)) \<Longrightarrow> (\<exists>r. e = Page r False) \<or> (\<exists>l. e = LogDebug l)"
proof (induction rs)
  case Nil
  then show ?case by simp
next
  case (Cons r rs)
  then show ?case
    by (auto split: sum.splits prod.splits)
qed

lemma get_pages_search:
  "h_connect h = Inr c \<Longrightarrow> search_query t p \<noteq> [] \<Longrightarrow>
   get_pages h t p (Some lim) =
     (case conn_search c (search_query t p) lim of
        Inl e \<Rightarrow> (Inl e, [Connect, Search (search_query t p) lim])
      | Inr rs \<Rightarrow> (fst (fetch_rows c rs),
                   Connect # Search (search_query t p) lim # snd (fetch_rows c rs)))"
  by (simp add: get_pages_def Let_def split: sum.splits prod.splits)

lemma get_pages_random:
  "h_connect h = Inr c \<Longrightarrow> search_query t p = [] \<Longrightarrow>
   get_pages h t p (Some lim) =
     (case conn_random c lim of
        Inl e \<Rightarrow> (Inl e, [Connect, Random lim])
      | Inr rs \<Rightarrow> (fst (fetch_rows c rs), Connect # Random lim # snd (fetch_rows c rs)))"
  by (simp add: get_pages_def Let_def split: sum.splits prod.splits)

lemma select_events:
  "select_parse_query U q ''pages'' get_columns = Inr (cols, cs, ob, lim) \<Longrightarrow>
   validate_where_conditions cs = Inr (t, p) \<Longrightarrow>
   snd (select U h q) = snd (get_pages h t p (Some lim)) \<and>
   fst (select U h q) =
     (case fst (get_pages h t p (Some lim)) of
        Inl e \<Rightarrow> Inl e
      | Inr rows \<Rightarrow>
          (case json_normalize U rows of
             Inl e \<Rightarrow> Inl e
           | Inr pages_df \<Rightarrow> select_execute_query U pages_df cols [] ob))"
  by (simp add: select_def split: sum.splits prod.splits)


lemma validate_single_title:
  "validate_where_conditions [(''='', ''title'', v)] = Inr (v, PyNone)"
  by (simp add: validate_where_conditions_def)

lemma search_query_title: "search_query (PyStr X) PyNone = ''intitle:'' @ X"
  by (simp add: search_query_def)

lemma search_query_none: "search_query PyNone PyNone = []"
  by (simp add: search_query_def)

lemma fetch_rows_quiet:
  assumes "fetch_rows c rs = (r, evs)" and "e \<in> set evs"
  shows "\<not> is_search e \<and> \<not> is_random e \<and> \<not> is_edit e"
proof -
  from assms have "e \<in> set (snd (fetch_rows c rs))" by simp
  from fetch_rows_events [OF this] show ?thesis by auto
qed

lemma get_pages_no_search_without_term:
  "search_query t p = [] \<Longrightarrow> e \<in> set (snd (get_pages h t p l)) \<Longrightarrow> \<not> is_search e"
  by (auto simp: get_pages_def Let_def split: sum.splits prod.splits dest: fetch_rows_quiet)

subsection \<open>The claims\<close>

text \<open>
  C1: a SELECT whose WHERE clause has a condition that is not supported (a column other
  than \<^verbatim>\<open>title\<close> and \<^verbatim>\<open>pageid\<close>, or an operator other than \<^verbatim>\<open>=\<close> on one
  of the two) fails with the \<^verbatim>\<open>ValueError\<close> for the first such condition, whose
  message names its column (and its operator), and no call has been made: the list of
  events is empty.
\<close>

theorem select_rejects_unsupported:
  assumes "select_parse_query U q ''pages'' get_columns = Inr (cols, cs, ob, lim)"
    and "\<exists>c\<in>set cs. \<not> supported c"
  shows "\<exists>pre oper col v post.
           cs = pre @ (oper, col, v) # post \<and> (\<forall>c\<in>set pre. supported c) \<and>
           \<not> supported (oper, col, v) \<and>
           select U h q = (Inl (ValueError (rejection oper col)), [])"
proof -
  from assms(2) obtain pre oper col v post where
    d: "cs = pre @ (oper, col, v) # post" "\<forall>c\<in>set pre. supported c" "\<not> supported (oper, col, v)"
    using first_unsupported by blast
  then have "validate_where_conditions cs = Inl (ValueError (rejection oper col))"
    by (simp add: validate_where_conditions_def validate_loop_rejects)
  with assms(1) have "select U h q = (Inl (ValueError (rejection oper col)), [])"
    by (simp add: select_def)
  with d show ?thesis by blast
qed

theorem select_rejects_unsupported_witness:
  "select sample_utilities sample_handler ([], [(''='', ''url'', PyStr ''Y'')], (), PyInt 5) =
     (Inl (ValueError ''Unsupported column 'url' in WHERE clause.''), [])"
proof -
  let ?q = "([] :: string list, [(''='', ''url'', PyStr ''Y'')], (), PyInt 5)"
  have p: "select_parse_query sample_utilities ?q ''pages'' get_columns =
             Inr ([], [(''='', ''url'', PyStr ''Y'')], (), PyInt 5)"
    by (simp add: sample_utilities_def)
  have b: "\<exists>c\<in>set [(''='', ''url'', PyStr ''Y'')]. \<not> supported c"
    by (simp add: supported_def)
  from select_rejects_unsupported [OF p b, of sample_handler]
  obtain pre oper col v post where
    e: "[(''='', ''url'', PyStr ''Y'')] = pre @ (oper, col, v) # post"
    and r: "select sample_utilities sample_handler ?q = (Inl (ValueError (rejection oper col)), [])"
    by blast
  from e have "pre = []" by (cases pre) simp_all
  with e have "oper = ''=''" "col = ''url''" by simp_all
  with r show ?thesis
    by (simp add: rejection_def unsupported_column_def)
qed

text \<open>
  C2: a SELECT whose only WHERE condition is \<^verbatim>\<open>title = 'X'\<close>, on a handler that
  connects: the events are the connect, then the one search call with the term
  \<^verbatim>\<open>intitle:X\<close> and \<^verbatim>\<open>results\<close> equal to the query's limit, then the page calls and
  debug lines of the items found; there is no random call and no other search call. The
  rows that \<^verbatim>\<open>get_pages\<close> returns, which \<^verbatim>\<open>select\<close> hands to the frame, are as many
  as the items the search returned, so at most the limit \<open>n\<close> when the search returned
  at most \<open>n\<close>; and rows are returned whenever every page call and conversion succeeds.
\<close>

theorem select_title_search:
  assumes parse: "select_parse_query U q ''pages'' get_columns =
                    Inr (cols, [(''='', ''title'', PyStr X)], ob, lim)"
    and conn: "h_connect h = Inr c"
  shows "snd (select U h q) =
           Connect # Search (''intitle:'' @ X) lim #
             (case conn_search c (''intitle:'' @ X) lim of
                Inl e \<Rightarrow> [] | Inr rs \<Rightarrow> snd (fetch_rows c rs)) \<and>
         (\<forall>e\<in>set (snd (select U h q)).
            \<not> is_random e \<and> (is_search e \<longrightarrow> e = Search (''intitle:'' @ X) lim)) \<and>
         fst (select U h q) =
           (case fst (get_pages h (PyStr X) PyNone (Some lim)) of
              Inl e \<Rightarrow> Inl e
            | Inr rows \<Rightarrow>
                (case json_normalize U rows of
                   Inl e \<Rightarrow> Inl e
                 | Inr pages_df \<Rightarrow> select_execute_query U pages_df cols [] ob)) \<and>
         (\<forall>rs. conn_search c (''intitle:'' @ X) lim = Inr rs \<longrightarrow>
            (\<forall>rows. fst (get_pages h (PyStr X) PyNone (Some lim)) = Inr rows \<longrightarrow>
               length rows = length rs \<and>
               (\<forall>n. lim = PyInt n \<longrightarrow> int (length rs) \<le> n \<longrightarrow> int (length rows) \<le> n)) \<and>
            ((\<forall>r\<in>set rs. \<exists>p d. conn_page c r False = Inr p \<and>
                 fst (convert_page_to_dict p) = Inr d) \<longrightarrow>
             (\<exists>rows. fst (get_pages h (PyStr X) PyNone (Some lim)) = Inr rows)))"
proof -
  let ?t = "''intitle:'' @ X"
  have v: "validate_where_conditions [(''='', ''title'', PyStr X)] = Inr (PyStr X, PyNone)"
    by (rule validate_single_title)
  have sq: "search_query (PyStr X) PyNone = ?t" by (rule search_query_title)
  then have ne: "search_query (PyStr X) PyNone \<noteq> []" by simp
  have gp: "get_pages h (PyStr X) PyNone (Some lim) =
     (case conn_search c ?t lim of
        Inl e \<Rightarrow> (Inl e, [Connect, Search ?t lim])
      | Inr rs \<Rightarrow> (fst (fetch_rows c rs), Connect # Search ?t lim # snd (fetch_rows c rs)))"
    using get_pages_search [OF conn ne, of lim] by (simp only: sq)
  have ev: "snd (select U h q) =
           Connect # Search ?t lim #
             (case conn_search c ?t lim of Inl e \<Rightarrow> [] | Inr rs \<Rightarrow> snd (fetch_rows c rs))"
    using select_events [OF parse v, of h] by (simp add: gp split: sum.splits)
  have quiet: "\<forall>e\<in>set (snd (select U h q)).
            \<not> is_random e \<and> (is_search e \<longrightarrow> e = Search ?t lim)"
  proof
    fix e assume a: "e \<in> set (snd (select U h q))"
    show "\<not> is_random e \<and> (is_search e \<longrightarrow> e = Search ?t lim)"
    proof (cases "conn_search c ?t lim")
      case (Inl x)
      with a show ?thesis by (auto simp: ev)
    next
      case (Inr rs)
      with a have "e = Connect \<or> e = Search ?t lim \<or> e \<in> set (snd (fetch_rows c rs))"
        by (auto simp: ev)
      with fetch_rows_events [of e c rs] show ?thesis by auto
    qed
  qed
  have res: "fst (select U h q) =
           (case fst (get_pages h (PyStr X) PyNone (Some lim)) of
              Inl e \<Rightarrow> Inl e
            | Inr rows \<Rightarrow>
                (case json_normalize U rows of
                   Inl e \<Rightarrow> Inl e
                 | Inr pages_df \<Rightarrow> select_execute_query U pages_df cols [] ob))"
    using select_events [OF parse v, of h] by simp
  have rows: "\<forall>rs. conn_search c ?t lim = Inr rs \<longrightarrow>
            (\<forall>rows. fst (get_pages h (PyStr X) PyNone (Some lim)) = Inr rows \<longrightarrow>
               length rows = length rs \<and>
               (\<forall>n. lim = PyInt n \<longrightarrow> int (length rs) \<le> n \<longrightarrow> int (length rows) \<le> n)) \<and>
            ((\<forall>r\<in>set rs. \<exists>p d. conn_page c r False = Inr p \<and>
                 fst (convert_page_to_dict p) = Inr d) \<longrightarrow>
             (\<exists>rows. fst (get_pages h (PyStr X) PyNone (Some lim)) = Inr rows))"
  proof (intro allI impI conjI)
    fix rs rows
    assume s: "conn_search c ?t lim = Inr rs"
      and r: "fst (get_pages h (PyStr X) PyNone (Some lim)) = Inr rows"
    from r s have "fst (fetch_rows c rs) = Inr rows" by (simp add: gp)
    from fetch_rows_rows [OF this] show l: "length rows = length rs"
      by (simp add: list_all2_lengthD)
    fix n assume "lim = PyInt n" and "int (length rs) \<le> n"
    with l show "int (length rows) \<le> n" by simp
  next
    fix rs
    assume s: "conn_search c ?t lim = Inr rs"
      and "\<forall>r\<in>set rs. \<exists>p d. conn_page c r False = Inr p \<and> fst (convert_page_to_dict p) = Inr d"
    from fetch_rows_succeeds [OF this(2)] s
    show "\<exists>rows. fst (get_pages h (PyStr X) PyNone (Some lim)) = Inr rows"
      by (simp add: gp)
  qed
  from ev quiet res rows show ?thesis by blast
qed


text \<open>The sample page converts to a row without \<^verbatim>\<open>categories\<close>, with one debug line.\<close>

lemma sample_page_converts:
  "convert_page_to_dict (sample_page t) =
     (Inr [''pageid'' \<mapsto> PyInt 1, ''title'' \<mapsto> PyStr t, ''original_title'' \<mapsto> PyStr t,
           ''content'' \<mapsto> PyStr ''text'', ''summary'' \<mapsto> PyStr ''text'',
           ''url'' \<mapsto> PyStr ''text''],
      [skipping ''categories''])"
  by (simp add: convert_page_to_dict_def get_columns_def sample_page_def)

theorem select_title_search_witness:
  "snd (select sample_utilities sample_handler
          ([], [(''='', ''title'', PyStr ''Alpha'')], (), PyInt 5)) =
     [Connect, Search ''intitle:Alpha'' (PyInt 5),
      Page ''Alpha'' False, LogDebug (skipping ''categories''),
      Page ''Beta'' False, LogDebug (skipping ''categories'')] \<and>
   (\<exists>rows. fst (get_pages sample_handler (PyStr ''Alpha'') PyNone (Some (PyInt 5))) = Inr rows \<and>
      length rows = 2 \<and> int (length rows) \<le> 5)"
proof -
  let ?q = "([] :: string list, [(''='', ''title'', PyStr ''Alpha'')], (), PyInt 5)"
  have p: "select_parse_query sample_utilities ?q ''pages'' get_columns =
             Inr ([], [(''='', ''title'', PyStr ''Alpha'')], (), PyInt 5)"
    by (simp add: sample_utilities_def)
  have c: "h_connect sample_handler = Inr sample_connection"
    by (simp add: sample_handler_def)
  have s: "conn_search sample_connection (''intitle:'' @ ''Alpha'') (PyInt 5) = Inr [''Alpha'', ''Beta'']"
    by (simp add: sample_connection_def)
  have pg: "\<forall>r\<in>set [''Alpha'', ''Beta''].
              \<exists>p d. conn_page sample_connection r False = Inr p \<and>
                     fst (convert_page_to_dict p) = Inr d"
    by (simp add: sample_connection_def sample_page_converts)
  note t = select_title_search [OF p c]
  from t have ev: "snd (select sample_utilities sample_handler ?q) =
      Connect # Search (''intitle:'' @ ''Alpha'') (PyInt 5) #
        (case conn_search sample_connection (''intitle:'' @ ''Alpha'') (PyInt 5) of
           Inl e \<Rightarrow> [] | Inr rs \<Rightarrow> snd (fetch_rows sample_connection rs))"
    by blast
  from t s pg obtain rows where
    r: "fst (get_pages sample_handler (PyStr ''Alpha'') PyNone (Some (PyInt 5))) = Inr rows"
    by blast
  with t s have "length rows = length [''Alpha'', ''Beta'']" by blast
  with r have "\<exists>rows. fst (get_pages sample_handler (PyStr ''Alpha'') PyNone (Some (PyInt 5))) = Inr rows \<and>
      length rows = 2 \<and> int (length rows) \<le> 5"
    by simp
  moreover have "snd (select sample_utilities sample_handler ?q) =
     [Connect, Search ''intitle:Alpha'' (PyInt 5),
      Page ''Alpha'' False, LogDebug (skipping ''categories''),
      Page ''Beta'' False, LogDebug (skipping ''categories'')]"
    unfolding ev s by (simp add: sample_connection_def sample_page_converts)
  ultimately show ?thesis by blast
qed

lemma validate_no_conditions: "validate_where_conditions [] = Inr (PyNone, PyNone)"
  by (simp add: validate_where_conditions_def)

text \<open>
  C3: a SELECT with no WHERE conditions never calls search. On a handler that connects,
  the events are the connect, then the one random call with \<^verbatim>\<open>pages\<close> equal to the
  limit, then the page calls and debug lines of the items it returned. The rows that
  \<^verbatim>\<open>get_pages\<close> returns, which \<^verbatim>\<open>select\<close> hands to the frame, are one per item, each
  the conversion of the page of its item; and rows are returned whenever every page call
  and conversion succeeds.
\<close>

theorem select_no_filter_random:
  assumes parse: "select_parse_query U q ''pages'' get_columns = Inr (cols, [], ob, lim)"
  shows "(\<forall>e\<in>set (snd (select U h q)). \<not> is_search e) \<and>
         fst (select U h q) =
           (case fst (get_pages h PyNone PyNone (Some lim)) of
              Inl e \<Rightarrow> Inl e
            | Inr rows \<Rightarrow>
                (case json_normalize U rows of
                   Inl e \<Rightarrow> Inl e
                 | Inr pages_df \<Rightarrow> select_execute_query U pages_df cols [] ob)) \<and>
         (\<forall>c. h_connect h = Inr c \<longrightarrow>
            snd (select U h q) =
              Connect # Random lim #
                (case conn_random c lim of Inl e \<Rightarrow> [] | Inr rs \<Rightarrow> snd (fetch_rows c rs)) \<and>
            (\<forall>rs. conn_random c lim = Inr rs \<longrightarrow>
               (\<forall>rows. fst (get_pages h PyNone PyNone (Some lim)) = Inr rows \<longrightarrow>
                  list_all2
                    (\<lambda>r d. \<exists>p. conn_page c r False = Inr p \<and> fst (convert_page_to_dict p) = Inr d)
                    rs rows) \<and>
               ((\<forall>r\<in>set rs. \<exists>p d. conn_page c r False = Inr p \<and>
                    fst (convert_page_to_dict p) = Inr d) \<longrightarrow>
                (\<exists>rows. fst (get_pages h PyNone PyNone (Some lim)) = Inr rows))))"
proof -
  note se = select_events [OF parse validate_no_conditions, of h]
  have quiet: "\<forall>e\<in>set (snd (select U h q)). \<not> is_search e"
    using se get_pages_no_search_without_term [OF search_query_none] by auto
  have conn: "\<forall>c. h_connect h = Inr c \<longrightarrow>
            snd (select U h q) =
              Connect # Random lim #
                (case conn_random c lim of Inl e \<Rightarrow> [] | Inr rs \<Rightarrow> snd (fetch_rows c rs)) \<and>
            (\<forall>rs. conn_random c lim = Inr rs \<longrightarrow>
               (\<forall>rows. fst (get_pages h PyNone PyNone (Some lim)) = Inr rows \<longrightarrow>
                  list_all2
                    (\<lambda>r d. \<exists>p. conn_page c r False = Inr p \<and> fst (convert_page_to_dict p) = Inr d)
                    rs rows) \<and>
               ((\<forall>r\<in>set rs. \<exists>p d. conn_page c r False = Inr p \<and>
                    fst (convert_page_to_dict p) = Inr d) \<longrightarrow>
                (\<exists>rows. fst (get_pages h PyNone PyNone (Some lim)) = Inr rows)))"
  proof (intro allI impI conjI)
    fix c assume c: "h_connect h = Inr c"
    note gp = get_pages_random [OF c search_query_none, of lim]
    show "snd (select U h q) =
              Connect # Random lim #
                (case conn_random c lim of Inl e \<Rightarrow> [] | Inr rs \<Rightarrow> snd (fetch_rows c rs))"
      using se by (simp add: gp split: sum.splits)
    fix rs assume r: "conn_random c lim = Inr rs"
    {
      fix rows assume "fst (get_pages h PyNone PyNone (Some lim)) = Inr rows"
      with r have "fst (fetch_rows c rs) = Inr rows" by (simp add: gp)
      then show "list_all2
           (\<lambda>r d. \<exists>p. conn_page c r False = Inr p \<and> fst (convert_page_to_dict p) = Inr d)
           rs rows"
        by (rule fetch_rows_rows)
    }
    assume "\<forall>r\<in>set rs. \<exists>p d. conn_page c r False = Inr p \<and> fst (convert_page_to_dict p) = Inr d"
    from fetch_rows_succeeds [OF this] r
    show "\<exists>rows. fst (get_pages h PyNone PyNone (Some lim)) = Inr rows"
      by (simp add: gp)
  qed
  from quiet se conn show ?thesis by blast
qed

theorem select_no_filter_random_witness:
  "snd (select sample_utilities sample_handler ([], [], (), PyInt 3)) =
     [Connect, Random (PyInt 3), Page ''Gamma'' False, LogDebug (skipping ''categories'')] \<and>
   (\<exists>d. fst (get_pages sample_handler PyNone PyNone (Some (PyInt 3))) = Inr [d] \<and>
        fst (convert_page_to_dict (sample_page ''Gamma'')) = Inr d)"
proof -
  let ?q = "([] :: string list, [] :: condition list, (), PyInt 3)"
  have p: "select_parse_query sample_utilities ?q ''pages'' get_columns = Inr ([], [], (), PyInt 3)"
    by (simp add: sample_utilities_def)
  have c: "h_connect sample_handler = Inr sample_connection"
    by (simp add: sample_handler_def)
  have r: "conn_random sample_connection (PyInt 3) = Inr [''Gamma'']"
    by (simp add: sample_connection_def)
  have pg: "\<forall>r\<in>set [''Gamma''].
              \<exists>p d. conn_page sample_connection r False = Inr p \<and>
                     fst (convert_page_to_dict p) = Inr d"
    by (simp add: sample_connection_def sample_page_converts)
  note t = select_no_filter_random [OF p, of sample_handler]
  from t c have ev: "snd (select sample_utilities sample_handler ?q) =
      Connect # Random (PyInt 3) #
        (case conn_random sample_connection (PyInt 3) of
           Inl e \<Rightarrow> [] | Inr rs \<Rightarrow> snd (fetch_rows sample_connection rs))"
    by blast
  from t c r pg obtain rows where
    g: "fst (get_pages sample_handler PyNone PyNone (Some (PyInt 3))) = Inr rows"
    by blast
  with t c r have "list_all2
           (\<lambda>r d. \<exists>p. conn_page sample_connection r False = Inr p \<and>
                       fst (convert_page_to_dict p) = Inr d)
           [''Gamma''] rows"
    by blast
  then obtain d where "rows = [d]" "fst (convert_page_to_dict (sample_page ''Gamma'')) = Inr d"
    by (auto simp: list_all2_Cons1 sample_connection_def)
  with g have "\<exists>d. fst (get_pages sample_handler PyNone PyNone (Some (PyInt 3))) = Inr [d] \<and>
        fst (convert_page_to_dict (sample_page ''Gamma'')) = Inr d"
    by blast
  moreover have "snd (select sample_utilities sample_handler ?q) =
     [Connect, Random (PyInt 3), Page ''Gamma'' False, LogDebug (skipping ''categories'')]"
    unfolding ev r by (simp add: sample_connection_def sample_page_converts)
  ultimately show ?thesis by blast
qed

lemma join_nonempty_head: "x \<noteq> [] \<Longrightarrow> join sep (x # xs) \<noteq> []"
  by (cases xs) simp_all

lemma search_query_empty_iff: "search_query t p = [] \<longleftrightarrow> t = PyNone \<and> p = PyNone"
  by (auto simp: search_query_def)

lemma search_query_both:
  "t \<noteq> PyNone \<Longrightarrow> p \<noteq> PyNone \<Longrightarrow>
   search_query t p = ''intitle:'' @ py_str t @ '' | '' @ ''pageid:'' @ py_str p"
  by (simp add: search_query_def)

lemma get_pages_default: "get_pages h t p None = get_pages h t p (Some default_limit)"
  by (simp add: get_pages_def)

text \<open>
  C7: \<^verbatim>\<open>get_pages\<close> called without a limit behaves as with the limit 20. On a handler
  that connects, its second event is then the search call with \<^verbatim>\<open>results=20\<close> when a
  title or a page id is given, and the random call with \<^verbatim>\<open>pages=20\<close> when neither is;
  and it returns as many rows as that call returned items, so at most 20 when the
  connection returned at most 20.
\<close>

theorem get_pages_default_limit:
  "get_pages h t p None = get_pages h t p (Some (PyInt 20)) \<and>
   (\<forall>c. h_connect h = Inr c \<longrightarrow>
      take 2 (snd (get_pages h t p None)) =
        [Connect, if t = PyNone \<and> p = PyNone then Random (PyInt 20)
                  else Search (search_query t p) (PyInt 20)] \<and>
      (\<forall>rs rows.
         (if t = PyNone \<and> p = PyNone then conn_random c (PyInt 20)
          else conn_search c (search_query t p) (PyInt 20)) = Inr rs \<longrightarrow>
         fst (get_pages h t p None) = Inr rows \<longrightarrow>
         length rows = length rs \<and> (length rs \<le> 20 \<longrightarrow> length rows \<le> 20)))"
proof (intro conjI allI impI)
  show d: "get_pages h t p None = get_pages h t p (Some (PyInt 20))"
    by (simp add: get_pages_default default_limit_def)
  fix c assume c: "h_connect h = Inr c"
  show "take 2 (snd (get_pages h t p None)) =
        [Connect, if t = PyNone \<and> p = PyNone then Random (PyInt 20)
                  else Search (search_query t p) (PyInt 20)]"
  proof (cases "search_query t p = []")
    case True
    with get_pages_random [OF c True, of "PyInt 20"] show ?thesis
      by (simp add: get_pages_default default_limit_def search_query_empty_iff split: sum.splits)
  next
    case False
    with get_pages_search [OF c False, of "PyInt 20"] show ?thesis
      by (simp add: get_pages_default default_limit_def search_query_empty_iff split: sum.splits)
  qed
  fix rs rows
  assume r: "(if t = PyNone \<and> p = PyNone then conn_random c (PyInt 20)
          else conn_search c (search_query t p) (PyInt 20)) = Inr rs"
    and g: "fst (get_pages h t p None) = Inr rows"
  have "fst (fetch_rows c rs) = Inr rows"
  proof (cases "search_query t p = []")
    case True
    then have "t = PyNone \<and> p = PyNone" by (simp add: search_query_empty_iff)
    with r have "conn_random c (PyInt 20) = Inr rs" by simp
    with get_pages_random [OF c True, of "PyInt 20"] g show ?thesis
      by (simp add: get_pages_default default_limit_def)
  next
    case False
    then have "\<not> (t = PyNone \<and> p = PyNone)" by (simp add: search_query_empty_iff)
    with r have "conn_search c (search_query t p) (PyInt 20) = Inr rs" by simp
    with get_pages_search [OF c False, of "PyInt 20"] g show ?thesis
      by (simp add: get_pages_default default_limit_def)
  qed
  from fetch_rows_rows [OF this] show l: "length rows = length rs"
    by (simp add: list_all2_lengthD)
  assume "length rs \<le> 20"
  with l show "length rows \<le> 20" by simp
qed

theorem get_pages_default_limit_witness:
  "get_pages sample_handler (PyStr ''Alpha'') PyNone None =
     get_pages sample_handler (PyStr ''Alpha'') PyNone (Some (PyInt 20)) \<and>
   take 2 (snd (get_pages sample_handler (PyStr ''Alpha'') PyNone None)) =
     [Connect, Search ''intitle:Alpha'' (PyInt 20)] \<and>
   take 2 (snd (get_pages sample_handler PyNone PyNone None)) = [Connect, Random (PyInt 20)] \<and>
   (\<exists>rows. fst (get_pages sample_handler PyNone PyNone None) = Inr rows \<and> length rows = 1)"
proof -
  have c: "h_connect sample_handler = Inr sample_connection"
    by (simp add: sample_handler_def)
  note a = get_pages_default_limit [of sample_handler "PyStr ''Alpha''" PyNone]
  note b = get_pages_default_limit [of sample_handler PyNone PyNone]
  from a have 1: "get_pages sample_handler (PyStr ''Alpha'') PyNone None =
     get_pages sample_handler (PyStr ''Alpha'') PyNone (Some (PyInt 20))"
    by blast
  from a c have "take 2 (snd (get_pages sample_handler (PyStr ''Alpha'') PyNone None)) =
     [Connect, if PyStr ''Alpha'' = PyNone \<and> PyNone = PyNone then Random (PyInt 20)
               else Search (search_query (PyStr ''Alpha'') PyNone) (PyInt 20)]"
    by blast
  then have 2: "take 2 (snd (get_pages sample_handler (PyStr ''Alpha'') PyNone None)) =
     [Connect, Search ''intitle:Alpha'' (PyInt 20)]"
    by (simp add: search_query_title)
  from b c have "take 2 (snd (get_pages sample_handler PyNone PyNone None)) =
     [Connect, if PyNone = PyNone \<and> PyNone = PyNone then Random (PyInt 20)
               else Search (search_query PyNone PyNone) (PyInt 20)]"
    by blast
  then have 3: "take 2 (snd (get_pages sample_handler PyNone PyNone None)) =
     [Connect, Random (PyInt 20)]"
    by simp
  have g: "fst (get_pages sample_handler PyNone PyNone None) =
             Inr [the_row]" if "fst (convert_page_to_dict (sample_page ''Gamma'')) = Inr the_row"
    for the_row
    using that
    by (simp add: get_pages_def search_query_none sample_handler_def sample_connection_def
        sample_page_converts)
  have r: "(if PyNone = PyNone \<and> PyNone = PyNone then conn_random sample_connection (PyInt 20)
          else conn_search sample_connection (search_query PyNone PyNone) (PyInt 20)) =
          Inr [''Gamma'']"
    by (simp add: sample_connection_def)
  from g obtain rows where gr: "fst (get_pages sample_handler PyNone PyNone None) = Inr rows"
    by (simp add: sample_page_converts)
  with b c r have "length rows = length [''Gamma'']" by blast
  with gr have 4: "\<exists>rows. fst (get_pages sample_handler PyNone PyNone None) = Inr rows \<and> length rows = 1"
    by simp
  from 1 2 3 4 show ?thesis by blast
qed

lemma get_pages_second_event:
  assumes "h_connect h = Inr c"
  shows "take 2 (snd (get_pages h t p (Some lim))) =
           [Connect, if t = PyNone \<and> p = PyNone then Random lim
                     else Search (search_query t p) lim]"
proof (cases "search_query t p = []")
  case True
  with get_pages_random [OF assms True, of lim] show ?thesis
    by (simp add: search_query_empty_iff split: sum.splits)
next
  case False
  with get_pages_search [OF assms False, of lim] show ?thesis
    by (simp add: search_query_empty_iff split: sum.splits)
qed

lemma validate_supported:
  "\<forall>c\<in>set cs. supported c \<Longrightarrow>
   validate_where_conditions cs =
     Inr (last_value ''title'' cs PyNone, last_value ''pageid'' cs PyNone)"
  by (simp add: validate_where_conditions_def validate_loop_supported)

text \<open>
  C9: when every condition of the WHERE clause is an equality on \<^verbatim>\<open>title\<close> or
  \<^verbatim>\<open>pageid\<close>, however many there are on the same column, the validation does not
  reject: it returns, for each of the two columns, the value of the last condition on
  that column in list order (\<^verbatim>\<open>None\<close> when there is none). Those values are the ones
  \<^verbatim>\<open>select\<close> builds the search term from.
\<close>

theorem validate_last_condition_wins:
  assumes "\<forall>c\<in>set cs. supported c"
  shows "validate_where_conditions cs =
           Inr (last_value ''title'' cs PyNone, last_value ''pageid'' cs PyNone) \<and>
         (select_parse_query U q ''pages'' get_columns = Inr (cols, cs, ob, lim) \<longrightarrow>
          h_connect h = Inr c \<longrightarrow>
          take 2 (snd (select U h q)) =
            [Connect,
             if last_value ''title'' cs PyNone = PyNone \<and> last_value ''pageid'' cs PyNone = PyNone
             then Random lim
             else Search (search_query (last_value ''title'' cs PyNone)
                            (last_value ''pageid'' cs PyNone)) lim])"
proof (intro conjI impI)
  show v: "validate_where_conditions cs =
           Inr (last_value ''title'' cs PyNone, last_value ''pageid'' cs PyNone)"
    using assms by (rule validate_supported)
  assume p: "select_parse_query U q ''pages'' get_columns = Inr (cols, cs, ob, lim)"
    and c: "h_connect h = Inr c"
  from select_events [OF p v, of h] get_pages_second_event [OF c]
  show "take 2 (snd (select U h q)) =
            [Connect,
             if last_value ''title'' cs PyNone = PyNone \<and> last_value ''pageid'' cs PyNone = PyNone
             then Random lim
             else Search (search_query (last_value ''title'' cs PyNone)
                            (last_value ''pageid'' cs PyNone)) lim]"
    by simp
qed

theorem validate_last_condition_wins_witness:
  "validate_where_conditions [(''='', ''title'', PyStr ''A''), (''='', ''title'', PyStr ''B'')] =
     Inr (PyStr ''B'', PyNone) \<and>
   take 2 (snd (select sample_utilities sample_handler
      ([], [(''='', ''title'', PyStr ''A''), (''='', ''title'', PyStr ''B'')], (), PyInt 5))) =
     [Connect, Search ''intitle:B'' (PyInt 5)]"
proof -
  let ?cs = "[(''='', ''title'', PyStr ''A''), (''='', ''title'', PyStr ''B'')]"
  let ?q = "([] :: string list, ?cs, (), PyInt 5)"
  have s: "\<forall>c\<in>set ?cs. supported c" by (simp add: supported_def)
  have p: "select_parse_query sample_utilities ?q ''pages'' get_columns = Inr ([], ?cs, (), PyInt 5)"
    by (simp add: sample_utilities_def)
  have c: "h_connect sample_handler = Inr sample_connection"
    by (simp add: sample_handler_def)
  have lt: "last_value ''title'' ?cs PyNone = PyStr ''B''"
    and lp: "last_value ''pageid'' ?cs PyNone = PyNone"
    by (simp_all add: last_value_def)
  note t = validate_last_condition_wins [OF s, of sample_utilities ?q "[]" "()" "PyInt 5"
      sample_handler sample_connection]
  from t have "validate_where_conditions ?cs = Inr (PyStr ''B'', PyNone)"
    by (simp only: lt lp)
  moreover from t p c have "take 2 (snd (select sample_utilities sample_handler ?q)) =
     [Connect, Search ''intitle:B'' (PyInt 5)]"
    by (simp add: lt lp search_query_title)
  ultimately show ?thesis by blast
qed

text \<open>
  C4, as the code has it: when every condition of the WHERE clause is an equality on
  \<^verbatim>\<open>title\<close> or \<^verbatim>\<open>pageid\<close>, the last one on \<^verbatim>\<open>title\<close> is \<^verbatim>\<open>title = 'X'\<close> and
  the last one on \<^verbatim>\<open>pageid\<close> is \<^verbatim>\<open>pageid = N\<close>, then on a handler that connects the
  search term is \<^verbatim>\<open>intitle:X | pageid:N\<close>: the two fragments, the title's first, joined
  with a vertical bar that has one space on each side.
\<close>

theorem select_both_filters_search_term:
  assumes "select_parse_query U q ''pages'' get_columns = Inr (cols, cs, ob, lim)"
    and "\<forall>c\<in>set cs. supported c"
    and "last_value ''title'' cs PyNone = PyStr X"
    and "last_value ''pageid'' cs PyNone = PyInt N"
    and "h_connect h = Inr c"
  shows "take 2 (snd (select U h q)) =
           [Connect, Search (''intitle:'' @ X @ '' | '' @ ''pageid:'' @ str_int N) lim]"
proof -
  from assms(2) have v: "validate_where_conditions cs = Inr (PyStr X, PyInt N)"
    by (simp add: validate_supported assms(3,4))
  have "search_query (PyStr X) (PyInt N) = ''intitle:'' @ X @ '' | '' @ ''pageid:'' @ str_int N"
    by (simp add: search_query_both)
  with select_events [OF assms(1) v, of h] get_pages_second_event [OF assms(5), of "PyStr X" "PyInt N" lim]
  show ?thesis by simp
qed

theorem select_both_filters_search_term_witness:
  "take 2 (snd (select sample_utilities sample_handler
      ([], [(''='', ''pageid'', PyInt 7), (''='', ''title'', PyStr ''X'')], (), PyInt 5))) =
     [Connect, Search ''intitle:X | pageid:7'' (PyInt 5)]"
proof -
  let ?cs = "[(''='', ''pageid'', PyInt 7), (''='', ''title'', PyStr ''X'')]"
  let ?q = "([] :: string list, ?cs, (), PyInt 5)"
  have s: "\<forall>c\<in>set ?cs. supported c" by (simp add: supported_def)
  have p: "select_parse_query sample_utilities ?q ''pages'' get_columns = Inr ([], ?cs, (), PyInt 5)"
    by (simp add: sample_utilities_def)
  have c: "h_connect sample_handler = Inr sample_connection"
    by (simp add: sample_handler_def)
  have lt: "last_value ''title'' ?cs PyNone = PyStr ''X''"
    and lp: "last_value ''pageid'' ?cs PyNone = PyInt 7"
    by (simp_all add: last_value_def)
  have n: "str_int 7 = ''7''"
    by (simp add: str_int_def str_nat.simps digit_char_def)
  from select_both_filters_search_term [OF p s lt lp c] show ?thesis
    by (simp add: n)
qed

text \<open>
  C4 fails as it is stated: for \<^verbatim>\<open>title = 'X'\<close> and \<^verbatim>\<open>pageid = 7\<close> the search call
  has the term \<^verbatim>\<open>intitle:X | pageid:7\<close>, and no search call has the two fragments
  joined with a bare \<^verbatim>\<open>|\<close>.
\<close>

theorem select_both_filters_bare_bar_counterexample:
  "take 2 (snd (select sample_utilities sample_handler
      ([], [(''='', ''title'', PyStr ''X''), (''='', ''pageid'', PyInt 7)], (), PyInt 5))) =
     [Connect, Search ''intitle:X | pageid:7'' (PyInt 5)] \<and>
   \<not> (\<exists>e \<in> set (snd (select sample_utilities sample_handler
      ([], [(''='', ''title'', PyStr ''X''), (''='', ''pageid'', PyInt 7)], (), PyInt 5))).
        e = Search (join ''|'' [''intitle:X'', ''pageid:7'']) (PyInt 5))"
  by (simp add: select_def sample_utilities_def sample_handler_def sample_connection_def
      validate_where_conditions_def get_pages_def search_query_def
      str_int_def str_nat.simps digit_char_def sample_page_converts)

lemma convert_page_to_dict_keys:
  "convert_page_to_dict page = (Inr row, lg) \<Longrightarrow> dom row \<subseteq> set get_columns"
  using convert_loop_keys [of page get_columns Map.empty "[]" row lg]
  by (simp add: convert_page_to_dict_def)

lemma get_pages_limit_arg:
  "get_pages h t p l = get_pages h t p (Some (case l of None \<Rightarrow> default_limit | Some x \<Rightarrow> x))"
  by (simp add: get_pages_def split: option.splits)

lemma get_pages_rows:
  assumes "fst (get_pages h t p l) = Inr rows"
  shows "\<exists>c rs. h_connect h = Inr c \<and> fst (fetch_rows c rs) = Inr rows"
proof -
  let ?lim = "case l of None \<Rightarrow> default_limit | Some x \<Rightarrow> x"
  from assms have a: "fst (get_pages h t p (Some ?lim)) = Inr rows"
    by (simp add: get_pages_limit_arg [of h t p l])
  from a obtain c where c: "h_connect h = Inr c"
    by (cases "h_connect h") (simp_all add: get_pages_def)
  show ?thesis
  proof (cases "search_query t p = []")
    case True
    with a get_pages_random [OF c True, of ?lim]
    obtain rs where "conn_random c ?lim = Inr rs" "fst (fetch_rows c rs) = Inr rows"
      by (cases "conn_random c ?lim") simp_all
    with c show ?thesis by blast
  next
    case False
    with a get_pages_search [OF c False, of ?lim]
    obtain rs where "conn_search c (search_query t p) ?lim = Inr rs"
      "fst (fetch_rows c rs) = Inr rows"
      by (cases "conn_search c (search_query t p) ?lim") simp_all
    with c show ?thesis by blast
  qed
qed

text \<open>
  C8: whatever a page object answers to attribute reads, a row made of it has keys among
  the seven columns of \<^verbatim>\<open>get_columns\<close> only; so has every row that \<^verbatim>\<open>get_pages\<close>
  returns.
\<close>

theorem row_keys_in_columns:
  "get_columns =
     [''pageid'', ''title'', ''original_title'', ''content'', ''summary'', ''url'', ''categories''] \<and>
   (\<forall>row lg. convert_page_to_dict page = (Inr row, lg) \<longrightarrow> dom row \<subseteq> set get_columns) \<and>
   (\<forall>rows. fst (get_pages h t p l) = Inr rows \<longrightarrow>
      (\<forall>row\<in>set rows. dom row \<subseteq> set get_columns))"
proof (intro conjI allI impI ballI)
  show "get_columns =
     [''pageid'', ''title'', ''original_title'', ''content'', ''summary'', ''url'', ''categories'']"
    by (simp add: get_columns_def)
next
  fix row lg assume "convert_page_to_dict page = (Inr row, lg)"
  then show "dom row \<subseteq> set get_columns" by (rule convert_page_to_dict_keys)
next
  fix rows row
  assume "fst (get_pages h t p l) = Inr rows" and r: "row \<in> set rows"
  then obtain c rs where "h_connect h = Inr c" and "fst (fetch_rows c rs) = Inr rows"
    using get_pages_rows by blast
  from fetch_rows_rows [OF this(2)] r
  obtain pg where "fst (convert_page_to_dict pg) = Inr row"
    by (auto simp: list_all2_conv_all_nth in_set_conv_nth)
  then show "dom row \<subseteq> set get_columns"
    using convert_page_to_dict_keys [of pg row "snd (convert_page_to_dict pg)"]
    by (cases "convert_page_to_dict pg") simp
qed

theorem row_keys_in_columns_witness:
  "\<exists>row. fst (convert_page_to_dict (\<lambda>a. Inr (PyStr a))) = Inr row \<and>
         row ''title'' = Some (PyStr ''title'') \<and> row ''links'' = None \<and>
         dom row \<subseteq> set get_columns"
proof -
  let ?page = "\<lambda>a. (Inr (PyStr a) :: error + pyconst)"
  obtain row lg where c: "convert_page_to_dict ?page = (Inr row, lg)"
    and t: "row ''title'' = Some (PyStr ''title'')" and l: "row ''links'' = None"
    by (simp add: convert_page_to_dict_def get_columns_def)
  from row_keys_in_columns [of ?page] c have "dom row \<subseteq> set get_columns"
    by blast
  with c t l show ?thesis by auto
qed


text \<open>
  C5, as the code has it: when each read of the seven attributes on a page either
  returns a value or raises \<^verbatim>\<open>KeyError\<close>, the conversion does not raise. The row has
  exactly the attributes whose read returned a value, each with that value; the others
  are absent from it, and for each of them, in the order of the columns, one debug line
  is logged. A read that raises another exception, such as the \<^verbatim>\<open>AttributeError\<close>
  of an attribute the object does not have, is not caught: the first such read ends the
  conversion with that exception.
\<close>

theorem convert_skips_key_errors:
  "((\<forall>a\<in>set get_columns. readable page a) \<longrightarrow>
      convert_page_to_dict page =
        (Inr (\<lambda>a. if a \<in> set get_columns
                    then (case page a of Inr v \<Rightarrow> Some v | Inl e \<Rightarrow> None) else None),
         map skipping (filter (\<lambda>a. isl (page a)) get_columns))) \<and>
   (\<forall>pre a post e.
      get_columns = pre @ a # post \<and> (\<forall>x\<in>set pre. readable page x) \<and>
      page a = Inl e \<and> \<not> readable page a \<longrightarrow>
      fst (convert_page_to_dict page) = Inl e)"
proof (intro conjI allI impI)
  assume "\<forall>a\<in>set get_columns. readable page a"
  from convert_loop_readable [OF this, of Map.empty "[]"]
  show "convert_page_to_dict page =
        (Inr (\<lambda>a. if a \<in> set get_columns
                    then (case page a of Inr v \<Rightarrow> Some v | Inl e \<Rightarrow> None) else None),
         map skipping (filter (\<lambda>a. isl (page a)) get_columns))"
    by (simp add: convert_page_to_dict_def)
next
  fix pre a post e
  assume "get_columns = pre @ a # post \<and> (\<forall>x\<in>set pre. readable page x) \<and>
      page a = Inl e \<and> \<not> readable page a"
  then have g: "get_columns = pre @ a # post" and "\<forall>x\<in>set pre. readable page x"
    and "page a = Inl e" and "\<not> readable page a"
    by simp_all
  from convert_loop_raises [OF this(2,3,4), of post Map.empty "[]"]
  show "fst (convert_page_to_dict page) = Inl e"
    by (simp add: convert_page_to_dict_def g)
qed

theorem convert_skips_key_errors_witness:
  "(\<exists>row. convert_page_to_dict (sample_page ''Alpha'') = (Inr row, [skipping ''categories'']) \<and>
         row ''categories'' = None \<and> row ''pageid'' = Some (PyInt 1) \<and>
         row ''title'' = Some (PyStr ''Alpha'') \<and>
         row ''original_title'' = Some (PyStr ''Alpha'') \<and>
         row ''content'' = Some (PyStr ''text'') \<and> row ''summary'' = Some (PyStr ''text'') \<and>
         row ''url'' = Some (PyStr ''text'')) \<and>
   fst (convert_page_to_dict bare_page) = Inl (AttributeError ''categories'')"
proof -
  have r: "\<forall>a\<in>set get_columns. readable (sample_page ''Alpha'') a"
    by (simp add: get_columns_def readable_def sample_page_def)
  from convert_skips_key_errors [of "sample_page ''Alpha''"] r
  have "convert_page_to_dict (sample_page ''Alpha'') =
        (Inr (\<lambda>a. if a \<in> set get_columns
                    then (case sample_page ''Alpha'' a of Inr v \<Rightarrow> Some v | Inl e \<Rightarrow> None)
                    else None),
         map skipping (filter (\<lambda>a. isl (sample_page ''Alpha'' a)) get_columns))"
    by blast
  moreover have "map skipping (filter (\<lambda>a. isl (sample_page ''Alpha'' a)) get_columns) =
      [skipping ''categories'']"
    by (simp add: get_columns_def sample_page_def)
  ultimately have first: "\<exists>row.
         convert_page_to_dict (sample_page ''Alpha'') = (Inr row, [skipping ''categories'']) \<and>
         row ''categories'' = None \<and> row ''pageid'' = Some (PyInt 1) \<and>
         row ''title'' = Some (PyStr ''Alpha'') \<and>
         row ''original_title'' = Some (PyStr ''Alpha'') \<and>
         row ''content'' = Some (PyStr ''text'') \<and> row ''summary'' = Some (PyStr ''text'') \<and>
         row ''url'' = Some (PyStr ''text'')"
    by (simp add: get_columns_def sample_page_def)
  have "get_columns =
          [''pageid'', ''title'', ''original_title'', ''content'', ''summary'', ''url''] @
          ''categories'' # []"
    by (simp add: get_columns_def)
  moreover have
    "\<forall>x\<in>set [''pageid'', ''title'', ''original_title'', ''content'', ''summary'', ''url''].
       readable bare_page x"
    by (simp add: readable_def bare_page_def sample_page_def)
  moreover have "bare_page ''categories'' = Inl (AttributeError ''categories'')"
    "\<not> readable bare_page ''categories''"
    by (simp_all add: readable_def bare_page_def)
  ultimately have "fst (convert_page_to_dict bare_page) = Inl (AttributeError ''categories'')"
    using convert_skips_key_errors [of bare_page] by blast
  with first show ?thesis by blast
qed

text \<open>
  C5 fails as it is stated: a page object that has no \<^verbatim>\<open>categories\<close> attribute makes
  \<^verbatim>\<open>getattr\<close> raise \<^verbatim>\<open>AttributeError\<close>, which the conversion does not catch; no
  row is produced.
\<close>

theorem convert_lacking_attribute_counterexample:
  "bare_page ''categories'' = Inl (AttributeError ''categories'') \<and>
   convert_page_to_dict bare_page = (Inl (AttributeError ''categories''), [])"
  by (simp add: convert_page_to_dict_def get_columns_def bare_page_def sample_page_def)

lemma edit_headers_text:
  \<open>json_dumps edit_headers =
     ''[{"Accept": "application/json"}, {"Content-Type": "application/x-www-form-urlencoded"}]''\<close>
  by (simp add: json_dumps_def json_dict_def json_string_def edit_headers_def)

text \<open>
  C6: an INSERT whose parser returns at least one row, the first with \<^verbatim>\<open>title\<close>,
  \<^verbatim>\<open>content\<close> and \<^verbatim>\<open>summary\<close>: the events are exactly one call of the handler,
  the edit, whatever rows follow the first. Its dictionary has the four keys
  \<^verbatim>\<open>title\<close>, \<^verbatim>\<open>text\<close>, \<^verbatim>\<open>summary\<close> and \<^verbatim>\<open>headers\<close>, with the first row's
  title, content and summary, and with the JSON text of the list of the two headers
  \<^verbatim>\<open>Accept: application/json\<close> and
  \<^verbatim>\<open>Content-Type: application/x-www-form-urlencoded\<close>. The result of the insert is
  what that call returns or raises.
\<close>

theorem insert_one_edit:
  assumes \<open>insert_parse_query U q get_columns = Inr (row # rest)\<close>
    and \<open>row ''title'' = Some t\<close>
    and \<open>row ''content'' = Some c\<close>
    and \<open>row ''summary'' = Some s\<close>
  shows \<open>\<exists>payload.
           snd (insert_query U h q) = [CallApplicationApi ''edit'' payload] \<and>
           fst (insert_query U h q) = h_call_application_api h ''edit'' payload \<and>
           dom payload = {''title'', ''text'', ''summary'', ''headers''} \<and>
           payload ''title'' = Some t \<and>
           payload ''text'' = Some c \<and>
           payload ''summary'' = Some s \<and>
           payload ''headers'' =
             Some (PyStr (json_dumps
               [[(''Accept'', ''application/json'')],
                [(''Content-Type'', ''application/x-www-form-urlencoded'')]])) \<and>
           payload ''headers'' = Some (PyStr
             ''[{"Accept": "application/json"}, {"Content-Type": "application/x-www-form-urlencoded"}]'')\<close>
proof -
  let ?payload = "[''title'' \<mapsto> t, ''text'' \<mapsto> c, ''summary'' \<mapsto> s,
                   ''headers'' \<mapsto> PyStr (json_dumps edit_headers)]"
  from assms have "insert_query U h q =
      (h_call_application_api h ''edit'' ?payload, [CallApplicationApi ''edit'' ?payload])"
    by (simp add: insert_query_def Let_def)
  moreover have "dom ?payload = {''title'', ''text'', ''summary'', ''headers''}"
    by auto
  moreover have "?payload ''title'' = Some t" "?payload ''text'' = Some c"
    "?payload ''summary'' = Some s"
    "?payload ''headers'' = Some (PyStr (json_dumps edit_headers))"
    by simp_all
  ultimately show ?thesis
    unfolding edit_headers_text [symmetric] edit_headers_def [symmetric]
    by (intro exI [of _ ?payload]) simp
qed


theorem insert_one_edit_witness:
  \<open>\<exists>payload.
     snd (insert_query sample_utilities sample_handler
            [[''title'' \<mapsto> PyStr ''T'', ''content'' \<mapsto> PyStr ''C'', ''summary'' \<mapsto> PyStr ''S''],
             Map.empty]) =
       [CallApplicationApi ''edit'' payload] \<and>
     fst (insert_query sample_utilities sample_handler
            [[''title'' \<mapsto> PyStr ''T'', ''content'' \<mapsto> PyStr ''C'', ''summary'' \<mapsto> PyStr ''S''],
             Map.empty]) = Inr () \<and>
     payload ''title'' = Some (PyStr ''T'') \<and>
     payload ''text'' = Some (PyStr ''C'') \<and>
     payload ''summary'' = Some (PyStr ''S'') \<and>
     payload ''headers'' = Some (PyStr
       ''[{"Accept": "application/json"}, {"Content-Type": "application/x-www-form-urlencoded"}]'')\<close>
proof -
  let ?row = "[''title'' \<mapsto> PyStr ''T'', ''content'' \<mapsto> PyStr ''C'', ''summary'' \<mapsto> PyStr ''S'']"
  have p: "insert_parse_query sample_utilities [?row, Map.empty] get_columns =
             Inr (?row # [Map.empty])"
    by (simp add: sample_utilities_def)
  have t: "?row ''title'' = Some (PyStr ''T'')" and c: "?row ''content'' = Some (PyStr ''C'')"
    and s: "?row ''summary'' = Some (PyStr ''S'')"
    by simp_all
  from insert_one_edit [OF p t c s, of sample_handler] show ?thesis
    by (auto simp: sample_handler_def)
qed

text \<open>
  C10: an INSERT whose parser returns no row makes no call and returns without error.
  An INSERT whose first row lacks one of the keys \<^verbatim>\<open>title\<close>, \<^verbatim>\<open>content\<close>,
  \<^verbatim>\<open>summary\<close> raises the \<^verbatim>\<open>KeyError\<close> of the first of them that is missing, in
  that order, and no call has been made.
\<close>

theorem insert_nothing_or_key_error:
  "(insert_parse_query U q get_columns = Inr [] \<longrightarrow> insert_query U h q = (Inr (), [])) \<and>
   (\<forall>row rest.
      insert_parse_query U q get_columns = Inr (row # rest) \<and>
      (row ''title'' = None \<or> row ''content'' = None \<or> row ''summary'' = None) \<longrightarrow>
      insert_query U h q =
        (Inl (KeyError (if row ''title'' = None then ''title''
                        else if row ''content'' = None then ''content'' else ''summary'')),
         []))"
  by (auto simp: insert_query_def split: option.splits)

theorem insert_nothing_or_key_error_witness:
  "insert_query sample_utilities sample_handler [] = (Inr (), []) \<and>
   insert_query sample_utilities sample_handler
     [[''title'' \<mapsto> PyStr ''T'', ''summary'' \<mapsto> PyStr ''S'']] =
     (Inl (KeyError ''content''), []) \<and>
   insert_query sample_utilities sample_handler [Map.empty] = (Inl (KeyError ''title''), [])"
proof -
  let ?row = "[''title'' \<mapsto> PyStr ''T'', ''summary'' \<mapsto> PyStr ''S'']"
  have e: "insert_parse_query sample_utilities [] get_columns = Inr []"
    by (simp add: sample_utilities_def)
  have p: "insert_parse_query sample_utilities [?row] get_columns = Inr (?row # [])"
    by (simp add: sample_utilities_def)
  have m: "?row ''title'' = None \<or> ?row ''content'' = None \<or> ?row ''summary'' = None"
    by simp
  have p': "insert_parse_query sample_utilities [Map.empty] get_columns = Inr (Map.empty # [])"
    by (simp add: sample_utilities_def)
  have m': "(Map.empty :: string \<rightharpoonup> pyconst) ''title'' = None \<or> (Map.empty :: string \<rightharpoonup> pyconst) ''content'' = None \<or>
            (Map.empty :: string \<rightharpoonup> pyconst) ''summary'' = None"
    by simp
  note a = insert_nothing_or_key_error [of sample_utilities "[]" sample_handler]
  note b = insert_nothing_or_key_error [of sample_utilities "[?row]" sample_handler]
  note c = insert_nothing_or_key_error [of sample_utilities "[Map.empty]" sample_handler]
  from a e have 1: "insert_query sample_utilities sample_handler [] = (Inr (), [])"
    by blast
  from b p m have "insert_query sample_utilities sample_handler [?row] =
        (Inl (KeyError (if ?row ''title'' = None then ''title''
                        else if ?row ''content'' = None then ''content'' else ''summary'')),
         [])"
    by blast
  then have 2: "insert_query sample_utilities sample_handler [?row] = (Inl (KeyError ''content''), [])"
    by simp
  from c p' m' have "insert_query sample_utilities sample_handler [Map.empty] =
        (Inl (KeyError (if (Map.empty :: string \<rightharpoonup> pyconst) ''title'' = None then ''title''
                        else if (Map.empty :: string \<rightharpoonup> pyconst) ''content'' = None then ''content''
                        else ''summary'')),
         [])"
    by blast
  then have 3: "insert_query sample_utilities sample_handler [Map.empty] = (Inl (KeyError ''title''), [])"
    by simp
  from 1 2 3 show ?thesis by blast
qed

end
